theory Spec2Isabelle
  imports Main "HOL-Library.Sublist" "HOL-Library.Multiset"
begin

section \<open>The file protocol filter of \<open>app/protocol_filter.ts\<close>\<close>

text \<open>
  The module turns the URL of a \<open>file:\<close> request into a path, canonicalizes the path and
  answers with the path when it starts with one of the allowed roots; otherwise it builds
  a response whose status is a net error code. JavaScript strings are modelled as \<open>string\<close>: the module only searches,
  slices and compares them unit by unit. Source names starting with an underscore lose it
  (\<open>_urlToPath\<close> is \<open>urlToPath\<close>).
\<close>

subsection \<open>String primitives of the language\<close>

text \<open>\<open>s.startsWith(t)\<close>.\<close>

definition startsWith :: "string \<Rightarrow> string \<Rightarrow> bool" where
  "startsWith s t = prefix t s"

text \<open>
  \<open>s.indexOf(t)\<close>: the least position at which \<open>t\<close> occurs in \<open>s\<close>, and \<open>-1\<close> when
  there is none.
\<close>

fun indexOf :: "string \<Rightarrow> string \<Rightarrow> int" where
  "indexOf [] t = (if t = [] then 0 else - 1)"
| "indexOf (x # xs) t =
     (if prefix t (x # xs) then 0
      else (let i = indexOf xs t in if i < 0 then - 1 else i + 1))"

text \<open>
  \<open>s.slice(b, e)\<close>, with \<open>None\<close> for an omitted end: a negative bound counts from the end
  of the string, and both bounds are clamped to the string.
\<close>

definition slice :: "string \<Rightarrow> int \<Rightarrow> int option \<Rightarrow> string" where
  "slice s b e =
     (let len = int (length s);
          from = (if b < 0 then max (len + b) 0 else min b len);
          to = (case e of None \<Rightarrow> len
                | Some e' \<Rightarrow> if e' < 0 then max (len + e') 0 else min e' len)
      in take (nat (to - from)) (drop (nat from) s))"

subsection \<open>Truncation at a character\<close>

definition eliminateAllAfterCharacter :: "string \<Rightarrow> string \<Rightarrow> string" where
  "eliminateAllAfterCharacter string character =
     (let index = indexOf string character
      in if index < 0 then string else slice string 0 (Some index))"

subsection \<open>The runtime and the collaborators\<close>

text \<open>
  A thrown value. The handler reads only its \<open>message\<close>, and only when that is a string.
\<close>

datatype js_error = Thrown (message: "string option")

text \<open>
  What the module imports and does not define is a parameter of the model: the global
  \<open>decodeURIComponent\<close> (it throws on a malformed escape), \<open>normalize\<close> and \<open>isAbsolute\<close> of
  \<open>path\<close>, \<open>existsSync\<close> and \<open>realpathSync\<close> of \<open>fs\<close> (the latter throws when the file
  system refuses), \<open>String.prototype.toLowerCase\<close>, and the seven directory helpers of
  \<open>./attachments\<close>. \<open>normalize\<close> is called \<open>normalizePath\<close> here. \<open>rangeError\<close> is the
  value that the \<open>Response\<close> constructor of the runtime throws for a status that it does
  not accept.
\<close>

record env =
  decodeURIComponent :: "string \<Rightarrow> js_error + string"
  normalizePath :: "string \<Rightarrow> string"
  existsSync :: "string \<Rightarrow> bool"
  realpathSync :: "string \<Rightarrow> js_error + string"
  isAbsolute :: "string \<Rightarrow> bool"
  toLowerCase :: "string \<Rightarrow> string"
  getAvatarsPath :: "string \<Rightarrow> string"
  getBadgesPath :: "string \<Rightarrow> string"
  getDraftPath :: "string \<Rightarrow> string"
  getPath :: "string \<Rightarrow> string"
  getStickersPath :: "string \<Rightarrow> string"
  getTempPath :: "string \<Rightarrow> string"
  getUpdateCachePath :: "string \<Rightarrow> string"
  rangeError :: js_error

subsection \<open>From a URL to a path\<close>

text \<open>
  \<open>options\<close> is optional in the source: \<open>None\<close> is the omitted argument, for which
  \<open>options?.isWindows\<close> is undefined and seven characters are dropped.
\<close>

definition urlToPath :: "env \<Rightarrow> string \<Rightarrow> bool option \<Rightarrow> js_error + string" where
  "urlToPath e targetUrl options =
     (case decodeURIComponent e targetUrl of
        Inl err \<Rightarrow> Inl err
      | Inr decoded \<Rightarrow>
          (let withoutScheme =
                 (if startsWith decoded ''//'' then decoded
                  else slice decoded (if options = Some True then 8 else 7) None);
               withoutQuerystring = eliminateAllAfterCharacter withoutScheme ''?'';
               withoutHash = eliminateAllAfterCharacter withoutQuerystring ''#''
           in Inr withoutHash))"

subsection \<open>Requests and responses\<close>

text \<open>
  Of a request the handler reads the URL only; \<open>None\<close> is an absent one. A response is its
  body and its status. The one body the module ever builds is the JSON text of an object
  with string fields, kept here as that object.
\<close>

record request =
  url :: "string option"

datatype json = JObject "(string \<times> string) list"

datatype response = Response (body: "json option") (status: int)

text \<open>
  \<open>new Response(body, {status})\<close>: the constructor of the runtime accepts a status from
  200 to 599 and throws a \<open>RangeError\<close> for any other. \<open>new Response(body)\<close>, without a
  status, cannot fail and has status 200; it is written \<open>Response body 200\<close> below.
\<close>

definition newResponse :: "env \<Rightarrow> json option \<Rightarrow> int \<Rightarrow> js_error + response" where
  "newResponse e responseBody responseStatus =
     (if 200 \<le> responseStatus \<and> responseStatus \<le> 599
      then Inr (Response responseBody responseStatus)
      else Inl (rangeError e))"

subsection \<open>The file handler\<close>

definition joinComma :: "string list \<Rightarrow> string" where
  "joinComma xs = concat (case xs of [] \<Rightarrow> [] | y # ys \<Rightarrow> y # map (\<lambda>z. '','' @ z) ys)"

text \<open>
  The loop over the allowed roots: \<open>Some\<close> is the response returned from inside the loop,
  \<open>None\<close> is the loop running to its end.
\<close>

fun forRoots :: "env \<Rightarrow> bool \<Rightarrow> string \<Rightarrow> string \<Rightarrow> string list \<Rightarrow> response option" where
  "forRoots e isWindows properCasing realPath [] = None"
| "forRoots e isWindows properCasing realPath (root # roots) =
     (if startsWith properCasing (if isWindows then toLowerCase e root else root)
      then Some (Response (Some (JObject [(''path'', realPath)])) 200)
      else forRoots e isWindows properCasing realPath roots)"

text \<open>
  The body of the \<open>try\<close> block: how it ends (\<open>Inl\<close> is a thrown value, \<open>Inr\<close> the response
  returned) and the lines it has written to the console by then. The two denials write
  their line first and then build the response, which throws.
\<close>

definition tryBlock ::
  "env \<Rightarrow> bool \<Rightarrow> string list \<Rightarrow> string \<Rightarrow> (js_error + response) \<times> string list" where
  "tryBlock e isWindows allowedRoots requestUrl =
     (case urlToPath e requestUrl (Some isWindows) of
        Inl err \<Rightarrow> (Inl err, [])
      | Inr targetPath \<Rightarrow>
          (let target = normalizePath e targetPath in
           case (if existsSync e target then realpathSync e target else Inr target) of
             Inl err \<Rightarrow> (Inl err, [])
           | Inr realPath \<Rightarrow>
               (let properCasing = (if isWindows then toLowerCase e realPath else realPath) in
                if \<not> isAbsolute e realPath
                then (newResponse e None (- 10),
                       [''Warning: denying request to non-absolute path ''
                          @ [CHR 0x27] @ realPath @ [CHR 0x27]])
                else
                  (case forRoots e isWindows properCasing realPath allowedRoots of
                     Some r \<Rightarrow> (Inr r, [])
                   | None \<Rightarrow>
                       (newResponse e None (- 10),
                         [''Warning: denying request to path '' @ [CHR 0x27] @ realPath
                            @ [CHR 0x27] @ '' (allowedRoots: '' @ [CHR 0x27]
                            @ joinComma allowedRoots @ [CHR 0x27] @ '')''])))))"

text \<open>
  The function that \<open>_createFileHandler\<close> returns, with the \<open>isWindows\<close> and \<open>allowedRoots\<close>
  it closes over as arguments. The result is how the call ends (\<open>Inl\<close> is a value thrown
  out of the handler, \<open>Inr\<close> the response returned) and the console output. The response
  for a missing URL is built outside the \<open>try\<close> block, the one of the \<open>catch\<close> clause
  after its line is written.
\<close>

definition fileHandler ::
  "env \<Rightarrow> bool \<Rightarrow> string list \<Rightarrow> request \<Rightarrow> (js_error + response) \<times> string list" where
  "fileHandler e isWindows allowedRoots req =
     (if url req = None \<or> url req = Some []
      then (newResponse e None (- 300), [])
      else
        (case tryBlock e isWindows allowedRoots (the (url req)) of
           (Inr r, out) \<Rightarrow> (Inr r, out)
         | (Inl err, out) \<Rightarrow>
             (let errorMessage =
                    (case message err of Some m \<Rightarrow> m | None \<Rightarrow> ''no error message'')
              in (newResponse e None (- 10),
                  out @ [''Warning: denying request because of an error: '' @ errorMessage]))))"

definition createFileHandler ::
  "env \<Rightarrow> string \<Rightarrow> string \<Rightarrow> bool \<Rightarrow> request \<Rightarrow> (js_error + response) \<times> string list" where
  "createFileHandler e userDataPath installPath isWindows =
     (let allowedRoots =
            [userDataPath, installPath, getAvatarsPath e userDataPath,
             getBadgesPath e userDataPath, getDraftPath e userDataPath,
             getPath e userDataPath, getStickersPath e userDataPath,
             getTempPath e userDataPath, getUpdateCachePath e userDataPath]
      in fileHandler e isWindows allowedRoots)"

text \<open>The handler of the disabled schemes.\<close>

definition disabledHandler :: "env \<Rightarrow> request \<Rightarrow> js_error + response" where
  "disabledHandler e req = newResponse e None (- 10)"

subsection \<open>The decoder in the words of the specification\<close>

text \<open>
  Truncation at the first occurrence of a character: the text before it, and the whole
  string when the character does not occur.
\<close>

definition specTruncate :: "char \<Rightarrow> string \<Rightarrow> string" where
  "specTruncate c s = takeWhile (\<lambda>x. x \<noteq> c) s"

text \<open>
  Percent-decode; keep a string that begins with \<open>//\<close>, else strip eight characters on
  Windows and seven elsewhere; cut at the first \<open>?\<close>, then at the first \<open>#\<close>.
\<close>

definition specUrlToPath :: "env \<Rightarrow> string \<Rightarrow> bool \<Rightarrow> js_error + string" where
  "specUrlToPath e u isWindows =
     (case decodeURIComponent e u of
        Inl err \<Rightarrow> Inl err
      | Inr decoded \<Rightarrow>
          Inr (specTruncate (CHR ''#'') (specTruncate (CHR ''?'')
                 (if take 2 decoded = ''//'' then decoded
                  else drop (if isWindows then 8 else 7) decoded))))"

subsection \<open>Vocabulary of the statements\<close>

text \<open>
  The two outcomes of the specification: \<open>Allowed\<close> is the response whose body carries the
  path, \<open>Denied\<close> the response without a body and with a net error code.
\<close>

definition allowed :: "string \<Rightarrow> response" where
  "allowed path = Response (Some (JObject [(''path'', path)])) 200"

definition denied :: "int \<Rightarrow> response" where
  "denied code = Response None code"

text \<open>
  The path that the first three statements of the \<open>try\<close> block compute from the URL (decode,
  normalize, follow symbolic links when the path exists), or the value they throw.
\<close>

definition resolve :: "env \<Rightarrow> bool \<Rightarrow> string \<Rightarrow> js_error + string" where
  "resolve e isWindows requestUrl =
     (case urlToPath e requestUrl (Some isWindows) of
        Inl err \<Rightarrow> Inl err
      | Inr targetPath \<Rightarrow>
          (let target = normalizePath e targetPath
           in if existsSync e target then realpathSync e target else Inr target))"

text \<open>
  The test of the loop: the path, lower-cased on Windows, starts with the root, lower-cased
  on Windows.
\<close>

definition underRoot :: "env \<Rightarrow> bool \<Rightarrow> string \<Rightarrow> string \<Rightarrow> bool" where
  "underRoot e isWindows path root =
     startsWith (if isWindows then toLowerCase e path else path)
       (if isWindows then toLowerCase e root else root)"

subsection \<open>Two sample environments\<close>

text \<open>
  The theorems below hold for every environment. To run the handler on concrete requests
  an environment has to be chosen; the two here follow Node on the inputs they are used
  with. The decoder handles escapes of ASCII octets and reports every other escape as
  malformed.
\<close>

definition hexDigit :: "char \<Rightarrow> nat option" where
  "hexDigit c =
     (let n = (of_char c :: nat)
      in if 48 \<le> n \<and> n \<le> 57 then Some (n - 48)
         else if 65 \<le> n \<and> n \<le> 70 then Some (n - 55)
         else if 97 \<le> n \<and> n \<le> 102 then Some (n - 87)
         else None)"

definition uriMalformed :: js_error where
  "uriMalformed = Thrown (Some ''URI malformed'')"

definition statusRangeError :: js_error where
  "statusRangeError =
     Thrown (Some (''init['' @ [CHR 0x22] @ ''status'' @ [CHR 0x22]
       @ ''] must be in the range of 200 to 599, inclusive.''))"

fun sampleDecode :: "string \<Rightarrow> js_error + string" where
  "sampleDecode [] = Inr []"
| "sampleDecode (c # cs) =
     (if c = CHR ''%''
      then (case cs of
              a # b # rest \<Rightarrow>
                (case (hexDigit a, hexDigit b) of
                   (Some h, Some l) \<Rightarrow>
                     if h < 8
                     then (case sampleDecode rest of
                             Inl err \<Rightarrow> Inl err
                           | Inr r \<Rightarrow> Inr (char_of (16 * h + l) # r))
                     else Inl uriMalformed
                 | _ \<Rightarrow> Inl uriMalformed)
            | _ \<Rightarrow> Inl uriMalformed)
      else (case sampleDecode cs of Inl err \<Rightarrow> Inl err | Inr r \<Rightarrow> Inr (c # r)))"

definition lowerChar :: "char \<Rightarrow> char" where
  "lowerChar c =
     (let n = (of_char c :: nat) in if 65 \<le> n \<and> n \<le> 90 then char_of (n + 32) else c)"

text \<open>POSIX \<open>normalize\<close>: the segments between slashes, with \<open>.\<close> and \<open>..\<close> resolved.\<close>

fun splitSlash :: "string \<Rightarrow> string list" where
  "splitSlash [] = [[]]"
| "splitSlash (c # cs) =
     (if c = CHR ''/'' then [] # splitSlash cs
      else (case splitSlash cs of [] \<Rightarrow> [[c]] | w # ws \<Rightarrow> (c # w) # ws))"

fun resolveSegments :: "bool \<Rightarrow> string list \<Rightarrow> string list \<Rightarrow> string list" where
  "resolveSegments allowAboveRoot acc [] = rev acc"
| "resolveSegments allowAboveRoot acc (seg # segs) =
     (if seg = [] \<or> seg = ''.'' then resolveSegments allowAboveRoot acc segs
      else if seg = ''..''
      then (if acc \<noteq> [] \<and> hd acc \<noteq> ''..''
            then resolveSegments allowAboveRoot (tl acc) segs
            else if allowAboveRoot then resolveSegments allowAboveRoot (''..'' # acc) segs
            else resolveSegments allowAboveRoot acc segs)
      else resolveSegments allowAboveRoot (seg # acc) segs)"

definition joinSlash :: "string list \<Rightarrow> string" where
  "joinSlash xs = concat (case xs of [] \<Rightarrow> [] | y # ys \<Rightarrow> y # map (\<lambda>z. ''/'' @ z) ys)"

definition posixIsAbsolute :: "string \<Rightarrow> bool" where
  "posixIsAbsolute p = (case p of [] \<Rightarrow> False | c # cs \<Rightarrow> c = CHR ''/'')"

definition posixNormalize :: "string \<Rightarrow> string" where
  "posixNormalize p =
     (if p = [] then ''.''
      else
        (let absolute = posixIsAbsolute p;
             trailingSeparator = (last p = CHR ''/'');
             res = joinSlash (resolveSegments (\<not> absolute) [] (splitSlash p))
         in if res = [] then (if absolute then ''/'' else if trailingSeparator then ''./'' else ''.'')
            else (if absolute then ''/'' else []) @ res
                   @ (if trailingSeparator then ''/'' else [])))"

text \<open>
  A file system with a file, a symbolic link that leaves \<open>/data/app\<close>, and an entry whose
  resolution is refused.
\<close>

definition posixEnv :: env where
  "posixEnv =
     \<lparr> decodeURIComponent = sampleDecode,
       normalizePath = posixNormalize,
       existsSync = (\<lambda>p. p = ''/data/app/attachments/a.png'' \<or> p = ''/data/app/link''
                        \<or> p = ''/data/app/locked'' \<or> p = ''/etc/passwd''),
       realpathSync = (\<lambda>p. if p = ''/data/app/link'' then Inr ''/etc/passwd''
                          else if p = ''/data/app/locked''
                          then Inl (Thrown (Some ''EACCES: permission denied''))
                          else Inr p),
       isAbsolute = posixIsAbsolute,
       toLowerCase = map lowerChar,
       getAvatarsPath = (\<lambda>p. p @ ''/avatars.noindex''),
       getBadgesPath = (\<lambda>p. p @ ''/badges.noindex''),
       getDraftPath = (\<lambda>p. p @ ''/drafts.noindex''),
       getPath = (\<lambda>p. p @ ''/attachments.noindex''),
       getStickersPath = (\<lambda>p. p @ ''/stickers.noindex''),
       getTempPath = (\<lambda>p. p @ ''/temp''),
       getUpdateCachePath = (\<lambda>p. p @ ''/update-cache''),
       rangeError = statusRangeError \<rparr>"

text \<open>
  The Windows sample writes paths with backslashes: \<open>toBackslashes\<close> is what \<open>normalize\<close>
  does to a path without \<open>.\<close>, \<open>..\<close> or doubled separators. No path exists on its disk.
\<close>

definition toBackslashes :: "string \<Rightarrow> string" where
  "toBackslashes p = map (\<lambda>c. if c = CHR ''/'' then CHR 0x5C else c) p"

definition isLetter :: "char \<Rightarrow> bool" where
  "isLetter c = (let n = (of_char c :: nat) in (65 \<le> n \<and> n \<le> 90) \<or> (97 \<le> n \<and> n \<le> 122))"

definition isSeparator :: "char \<Rightarrow> bool" where
  "isSeparator c = (c = CHR ''/'' \<or> c = CHR 0x5C)"

definition win32IsAbsolute :: "string \<Rightarrow> bool" where
  "win32IsAbsolute p =
     (case p of
        [] \<Rightarrow> False
      | c # cs \<Rightarrow>
          isSeparator c
          \<or> (isLetter c \<and> (case cs of d # s # rest \<Rightarrow> d = CHR '':'' \<and> isSeparator s | _ \<Rightarrow> False)))"

definition winEnv :: env where
  "winEnv =
     \<lparr> decodeURIComponent = sampleDecode,
       normalizePath = toBackslashes,
       existsSync = (\<lambda>p. False),
       realpathSync = (\<lambda>p. Inr p),
       isAbsolute = win32IsAbsolute,
       toLowerCase = map lowerChar,
       getAvatarsPath = (\<lambda>p. p @ toBackslashes ''/avatars.noindex''),
       getBadgesPath = (\<lambda>p. p @ toBackslashes ''/badges.noindex''),
       getDraftPath = (\<lambda>p. p @ toBackslashes ''/drafts.noindex''),
       getPath = (\<lambda>p. p @ toBackslashes ''/attachments.noindex''),
       getStickersPath = (\<lambda>p. p @ toBackslashes ''/stickers.noindex''),
       getTempPath = (\<lambda>p. p @ toBackslashes ''/temp''),
       getUpdateCachePath = (\<lambda>p. p @ toBackslashes ''/update-cache''),
       rangeError = statusRangeError \<rparr>"

section \<open>Properties\<close>

subsection \<open>Searching and slicing\<close>

lemma slice_from_zero: "0 \<le> i \<Longrightarrow> slice s 0 (Some i) = take (nat i) s"
  by (auto simp: slice_def Let_def min_def)

lemma slice_to_end: "0 \<le> n \<Longrightarrow> slice s n None = drop (nat n) s"
  by (auto simp: slice_def Let_def min_def)

lemma indexOf_char:
  "indexOf s [c] = (if c \<in> set s then int (length (takeWhile (\<lambda>x. x \<noteq> c) s)) else - 1)"
  by (induction s) (auto simp: Let_def)

lemma eliminate_char:
  "eliminateAllAfterCharacter s [c] = takeWhile (\<lambda>x. x \<noteq> c) s"
proof (cases "c \<in> set s")
  case True
  then show ?thesis
    by (simp add: eliminateAllAfterCharacter_def indexOf_char slice_from_zero
        takeWhile_eq_take [symmetric])
next
  case False
  then have "s = takeWhile (\<lambda>x. x \<noteq> c) s"
    by (intro takeWhile_eq_all_conv [THEN iffD2, symmetric]) auto
  with False show ?thesis
    by (simp add: eliminateAllAfterCharacter_def indexOf_char)
qed

subsection \<open>The handler, case by case\<close>

lemma newResponse_net_error:
  "responseStatus < 200 \<Longrightarrow> newResponse e b responseStatus = Inl (rangeError e)"
  by (simp add: newResponse_def)

lemma forRoots_eq:
  "forRoots e w (if w then toLowerCase e realPath else realPath) realPath roots =
     (if \<exists>root \<in> set roots. underRoot e w realPath root then Some (allowed realPath)
      else None)"
  by (induction roots) (auto simp: underRoot_def allowed_def)

lemma tryBlock_eq:
  "fst (tryBlock e w roots u) =
     (case resolve e w u of
        Inl err \<Rightarrow> Inl err
      | Inr realPath \<Rightarrow>
          if isAbsolute e realPath \<and> (\<exists>root \<in> set roots. underRoot e w realPath root)
          then Inr (allowed realPath) else Inl (rangeError e))"
  by (simp add: tryBlock_def resolve_def forRoots_eq newResponse_net_error Let_def
      split: sum.splits option.splits)

lemma fileHandler_present:
  assumes "url req = Some u" and "u \<noteq> []"
  shows "fst (fileHandler e w roots req) =
     (case resolve e w u of
        Inl err \<Rightarrow> Inl (rangeError e)
      | Inr realPath \<Rightarrow>
          if isAbsolute e realPath \<and> (\<exists>root \<in> set roots. underRoot e w realPath root)
          then Inr (allowed realPath) else Inl (rangeError e))"
proof (cases "tryBlock e w roots u")
  case (Pair outcome out)
  with tryBlock_eq [of e w roots u] have outcome: "outcome =
     (case resolve e w u of
        Inl err \<Rightarrow> Inl err
      | Inr realPath \<Rightarrow>
          if isAbsolute e realPath \<and> (\<exists>root \<in> set roots. underRoot e w realPath root)
          then Inr (allowed realPath) else Inl (rangeError e))"
    by simp
  show ?thesis
  proof (cases outcome)
    case (Inl err)
    with Pair assms have "fst (fileHandler e w roots req) = Inl (rangeError e)"
      by (simp add: fileHandler_def newResponse_net_error Let_def)
    with Inl outcome show ?thesis
      by (auto split: sum.splits if_splits)
  next
    case (Inr r)
    with Pair assms have "fst (fileHandler e w roots req) = Inr r"
      by (simp add: fileHandler_def)
    with Inr outcome show ?thesis
      by (auto split: sum.splits if_splits)
  qed
qed

lemma fileHandler_missing:
  assumes "url req = None \<or> url req = Some []"
  shows "fileHandler e w roots req = (Inl (rangeError e), [])"
  using assms by (auto simp: fileHandler_def newResponse_net_error)

lemma fileHandler_outcomes:
  assumes "url req = Some u" and "u \<noteq> []"
  shows "fst (fileHandler e w roots req) = Inl (rangeError e)
       \<or> (\<exists>realPath. resolve e w u = Inr realPath \<and> isAbsolute e realPath
             \<and> fst (fileHandler e w roots req) = Inr (allowed realPath))"
  using assms by (auto simp: fileHandler_present split: sum.splits)

lemma fileHandler_returns_allowed:
  assumes "fst (fileHandler e w roots req) = Inr r"
  shows "\<exists>path. r = allowed path \<and> isAbsolute e path"
proof (cases "url req = None \<or> url req = Some []")
  case True
  with assms show ?thesis
    by (simp add: fileHandler_missing)
next
  case False
  then obtain u where u: "url req = Some u" "u \<noteq> []"
    by (cases "url req") auto
  from fileHandler_outcomes [OF u, of e w roots] assms show ?thesis
    by auto
qed

lemma resolve_decode_error:
  "decodeURIComponent e u = Inl err \<Longrightarrow> resolve e w u = Inl err"
  by (simp add: resolve_def urlToPath_def)

lemma resolve_target:
  assumes "urlToPath e u (Some w) = Inr targetPath"
  shows "resolve e w u =
     (if existsSync e (normalizePath e targetPath)
      then realpathSync e (normalizePath e targetPath)
      else Inr (normalizePath e targetPath))"
  using assms by (simp add: resolve_def)

lemma prefix_two: "prefix [a, b] d \<longleftrightarrow> take 2 d = [a, b]"
proof (cases d)
  case Nil
  then show ?thesis by simp
next
  case (Cons x xs)
  then show ?thesis by (cases xs) auto
qed

text \<open>
  For POSIX paths a path that starts with an absolute path is absolute: under absolute
  roots the absoluteness test of the handler never rejects a path that lies under a root.
\<close>

lemma posixIsAbsolute_extends:
  "posixIsAbsolute root \<Longrightarrow> prefix root path \<Longrightarrow> posixIsAbsolute path"
  by (cases root; cases path) (auto simp: posixIsAbsolute_def)

subsection \<open>The statements of the specification\<close>

text \<open>
  C1. Whatever the allowed roots: when the URL of the request decodes and canonicalizes to
  a path that lies under one of the allowed roots (the path may be the root itself), the
  handler answers \<open>Allowed\<close> with exactly that canonicalized path. The data model takes
  every allowed root to be absolute, which makes the paths under them absolute; the
  handler tests that on the resolved path, and the statement carries it as a hypothesis.
\<close>

theorem under_root_allowed:
  assumes "url req = Some u" and "u \<noteq> []"
    and "resolve e isWindows u = Inr realPath"
    and "isAbsolute e realPath"
    and "root \<in> set allowedRoots"
    and "underRoot e isWindows realPath root"
  shows "fst (fileHandler e isWindows allowedRoots req) = Inr (allowed realPath)"
  using assms by (auto simp: fileHandler_present)

theorem under_root_allowed_witness:
  "fst (createFileHandler posixEnv ''/data/app'' ''/opt/Signal'' False
          \<lparr>url = Some ''file:///data/app/attachments/a.png''\<rparr>)
     = Inr (allowed ''/data/app/attachments/a.png'')
   \<and> fst (createFileHandler posixEnv ''/data/app'' ''/opt/Signal'' False
          \<lparr>url = Some ''file:///data/app''\<rparr>)
     = Inr (allowed ''/data/app'')"
proof -
  let ?roots = "[''/data/app'', ''/opt/Signal'', getAvatarsPath posixEnv ''/data/app'',
    getBadgesPath posixEnv ''/data/app'', getDraftPath posixEnv ''/data/app'',
    getPath posixEnv ''/data/app'', getStickersPath posixEnv ''/data/app'',
    getTempPath posixEnv ''/data/app'', getUpdateCachePath posixEnv ''/data/app'']"
  have r1: "resolve posixEnv False ''file:///data/app/attachments/a.png''
      = Inr ''/data/app/attachments/a.png''"
    by code_simp
  have r2: "resolve posixEnv False ''file:///data/app'' = Inr ''/data/app''"
    by code_simp
  have a1: "isAbsolute posixEnv ''/data/app/attachments/a.png''"
    and a2: "isAbsolute posixEnv ''/data/app''"
    by code_simp+
  have u1: "underRoot posixEnv False ''/data/app/attachments/a.png'' ''/data/app''"
    and u2: "underRoot posixEnv False ''/data/app'' ''/data/app''"
    by code_simp+
  have "fst (fileHandler posixEnv False ?roots
          \<lparr>url = Some ''file:///data/app/attachments/a.png''\<rparr>)
      = Inr (allowed ''/data/app/attachments/a.png'')"
    by (rule under_root_allowed [OF _ _ r1 a1 _ u1]) simp_all
  moreover
  have "fst (fileHandler posixEnv False ?roots \<lparr>url = Some ''file:///data/app''\<rparr>)
      = Inr (allowed ''/data/app'')"
    by (rule under_root_allowed [OF _ _ r2 a2 _ u2]) simp_all
  ultimately show ?thesis
    by (simp add: createFileHandler_def)
qed

text \<open>
  C2. Symbolic links are resolved before the roots are compared: when the normalized path
  exists, the outcome is decided by its real path alone; when it does not exist, the
  outcome is decided by the normalized path and \<open>realpathSync\<close> is not consulted, so it
  cannot fail. A path that exists and whose real path is under no allowed root (in the
  sense of the handler's test, C5) is never allowed, wherever the path itself lies. But it
  is not answered with \<open>Denied\<close> either: the response with status \<open>-10\<close> cannot be built,
  in the \<open>try\<close> block or in the \<open>catch\<close> clause, and the handler throws.
\<close>

theorem symlinks_resolved_before_check:
  assumes "url req = Some u" and "u \<noteq> []"
    and "urlToPath e u (Some isWindows) = Inr targetPath"
    and "target = normalizePath e targetPath"
  shows "(existsSync e target \<and> realpathSync e target = Inr realPath \<longrightarrow>
            fst (fileHandler e isWindows allowedRoots req) =
              (if isAbsolute e realPath
                  \<and> (\<exists>root \<in> set allowedRoots. underRoot e isWindows realPath root)
               then Inr (allowed realPath) else Inl (rangeError e)))
       \<and> (\<not> existsSync e target \<longrightarrow>
            fst (fileHandler e isWindows allowedRoots req) =
              (if isAbsolute e target
                  \<and> (\<exists>root \<in> set allowedRoots. underRoot e isWindows target root)
               then Inr (allowed target) else Inl (rangeError e)))
       \<and> (existsSync e target \<and> realpathSync e target = Inr realPath
            \<and> (\<forall>root \<in> set allowedRoots. \<not> underRoot e isWindows realPath root) \<longrightarrow>
            fst (fileHandler e isWindows allowedRoots req) = Inl (rangeError e)
            \<and> fst (fileHandler e isWindows allowedRoots req) \<noteq> Inr (denied (- 10)))
       \<and> (existsSync e target \<and> realpathSync e target = Inl err \<longrightarrow>
            fst (fileHandler e isWindows allowedRoots req) = Inl (rangeError e))"
  using assms by (auto simp: fileHandler_present resolve_target)

theorem symlinks_resolved_before_check_witness:
  "underRoot posixEnv False ''/data/app/link'' ''/data/app''
   \<and> existsSync posixEnv ''/data/app/link''
   \<and> realpathSync posixEnv ''/data/app/link'' = Inr ''/etc/passwd''
   \<and> fst (fileHandler posixEnv False [''/data/app'', ''/opt/Signal'']
          \<lparr>url = Some ''file:///data/app/link''\<rparr>) = Inl statusRangeError
   \<and> fst (fileHandler posixEnv False [''/data/app'', ''/opt/Signal'']
          \<lparr>url = Some ''file:///data/app/link''\<rparr>) \<noteq> Inr (denied (- 10))
   \<and> \<not> existsSync posixEnv ''/data/app/new.png''
   \<and> fst (fileHandler posixEnv False [''/data/app'', ''/opt/Signal'']
          \<lparr>url = Some ''file:///data/app/new.png''\<rparr>) = Inr (allowed ''/data/app/new.png'')"
proof -
  let ?roots = "[''/data/app'', ''/opt/Signal'']"
  have p1: "urlToPath posixEnv ''file:///data/app/link'' (Some False) = Inr ''/data/app/link''"
    and n1: "''/data/app/link'' = normalizePath posixEnv ''/data/app/link''"
    and p2: "urlToPath posixEnv ''file:///data/app/new.png'' (Some False)
      = Inr ''/data/app/new.png''"
    and n2: "''/data/app/new.png'' = normalizePath posixEnv ''/data/app/new.png''"
    by code_simp+
  have link: "underRoot posixEnv False ''/data/app/link'' ''/data/app''"
    "existsSync posixEnv ''/data/app/link''"
    "realpathSync posixEnv ''/data/app/link'' = Inr ''/etc/passwd''"
    "\<forall>root \<in> set ?roots. \<not> underRoot posixEnv False ''/etc/passwd'' root"
    by code_simp+
  have new: "\<not> existsSync posixEnv ''/data/app/new.png''"
    "isAbsolute posixEnv ''/data/app/new.png''"
    "\<exists>root \<in> set ?roots. underRoot posixEnv False ''/data/app/new.png'' root"
    by code_simp+
  have thrown: "rangeError posixEnv = statusRangeError"
    by (simp add: posixEnv_def)
  have "fst (fileHandler posixEnv False ?roots \<lparr>url = Some ''file:///data/app/link''\<rparr>)
      = Inl statusRangeError"
    using symlinks_resolved_before_check
      [where req = "\<lparr>url = Some ''file:///data/app/link''\<rparr>" and realPath = "''/etc/passwd''"
        and allowedRoots = ?roots, OF _ _ p1 n1] link thrown
    by simp
  moreover
  have "fst (fileHandler posixEnv False ?roots \<lparr>url = Some ''file:///data/app/new.png''\<rparr>)
      = Inr (allowed ''/data/app/new.png'')"
    using symlinks_resolved_before_check
      [where req = "\<lparr>url = Some ''file:///data/app/new.png''\<rparr>" and allowedRoots = ?roots,
        OF _ _ p2 n2] new
    by simp
  ultimately show ?thesis
    using link new by simp
qed

text \<open>
  C3. A request that carries a URL and is not allowed ends the same way whatever the
  cause: a malformed escape in the URL, any other value thrown while the path is resolved,
  a resolved path that is not absolute, a resolved path under no allowed root. It does
  not end with the response \<open>Denied\<close> with code \<open>-10\<close>, though: \<open>new Response\<close> refuses
  the status \<open>-10\<close>, so the handler throws the constructor's \<open>RangeError\<close>, and no response
  without a body is ever returned.
\<close>

theorem denials_throw:
  assumes "url req = Some u" and "u \<noteq> []"
  shows "(\<forall>err. decodeURIComponent e u = Inl err \<longrightarrow>
            fst (fileHandler e isWindows allowedRoots req) = Inl (rangeError e))
       \<and> (\<forall>err. resolve e isWindows u = Inl err \<longrightarrow>
            fst (fileHandler e isWindows allowedRoots req) = Inl (rangeError e))
       \<and> (\<forall>realPath. resolve e isWindows u = Inr realPath \<and> \<not> isAbsolute e realPath \<longrightarrow>
            fst (fileHandler e isWindows allowedRoots req) = Inl (rangeError e))
       \<and> (\<forall>realPath. resolve e isWindows u = Inr realPath
              \<and> (\<forall>root \<in> set allowedRoots. \<not> underRoot e isWindows realPath root) \<longrightarrow>
            fst (fileHandler e isWindows allowedRoots req) = Inl (rangeError e))
       \<and> (\<forall>code. fst (fileHandler e isWindows allowedRoots req) \<noteq> Inr (denied code))"
proof -
  have "fst (fileHandler e isWindows allowedRoots req) = Inl (rangeError e)"
    if "decodeURIComponent e u = Inl err" for err
    using that assms by (simp add: fileHandler_present resolve_decode_error)
  moreover have "fst (fileHandler e isWindows allowedRoots req) \<noteq> Inr (denied code)" for code
    using fileHandler_outcomes [OF assms, of e isWindows allowedRoots]
    by (auto simp: allowed_def denied_def)
  ultimately show ?thesis
    using assms by (auto simp: fileHandler_present)
qed

theorem denials_throw_witness:
  "resolve posixEnv False ''file:///etc/passwd'' = Inr ''/etc/passwd''
   \<and> fst (fileHandler posixEnv False [''/data/app'', ''/opt/Signal'']
          \<lparr>url = Some ''file:///etc/passwd''\<rparr>) = Inl statusRangeError
   \<and> fst (fileHandler posixEnv False [''/data/app'', ''/opt/Signal'']
          \<lparr>url = Some ''file:///etc/passwd''\<rparr>) \<noteq> Inr (denied (- 10))
   \<and> decodeURIComponent posixEnv ''file:///data/app/%zz'' = Inl uriMalformed
   \<and> fst (fileHandler posixEnv False [''/data/app'', ''/opt/Signal'']
          \<lparr>url = Some ''file:///data/app/%zz''\<rparr>) = Inl statusRangeError
   \<and> resolve posixEnv False ''file://data/app/a.png'' = Inr ''data/app/a.png''
   \<and> \<not> isAbsolute posixEnv ''data/app/a.png''
   \<and> fst (fileHandler posixEnv False [''/data/app'', ''/opt/Signal'']
          \<lparr>url = Some ''file://data/app/a.png''\<rparr>) = Inl statusRangeError"
proof -
  let ?roots = "[''/data/app'', ''/opt/Signal'']"
  have d: "decodeURIComponent posixEnv ''file:///data/app/%zz'' = Inl uriMalformed"
    by code_simp
  have r: "resolve posixEnv False ''file://data/app/a.png'' = Inr ''data/app/a.png''"
    "\<not> isAbsolute posixEnv ''data/app/a.png''"
    by code_simp+
  have t: "resolve posixEnv False ''file:///etc/passwd'' = Inr ''/etc/passwd''"
    "\<forall>root \<in> set ?roots. \<not> underRoot posixEnv False ''/etc/passwd'' root"
    by code_simp+
  have thrown: "rangeError posixEnv = statusRangeError"
    by (simp add: posixEnv_def)
  have "fst (fileHandler posixEnv False ?roots \<lparr>url = Some ''file:///etc/passwd''\<rparr>)
        = Inl statusRangeError
      \<and> fst (fileHandler posixEnv False ?roots \<lparr>url = Some ''file:///etc/passwd''\<rparr>)
        \<noteq> Inr (denied (- 10))"
    using denials_throw [where req = "\<lparr>url = Some ''file:///etc/passwd''\<rparr>"
        and e = posixEnv and isWindows = False and allowedRoots = ?roots] t thrown
    by simp
  moreover
  have "fst (fileHandler posixEnv False ?roots \<lparr>url = Some ''file:///data/app/%zz''\<rparr>)
      = Inl statusRangeError"
    using denials_throw [where req = "\<lparr>url = Some ''file:///data/app/%zz''\<rparr>"
        and e = posixEnv and isWindows = False and allowedRoots = ?roots] d thrown
    by simp
  moreover
  have "fst (fileHandler posixEnv False ?roots \<lparr>url = Some ''file://data/app/a.png''\<rparr>)
      = Inl statusRangeError"
    using denials_throw [where req = "\<lparr>url = Some ''file://data/app/a.png''\<rparr>"
        and e = posixEnv and isWindows = False and allowedRoots = ?roots] r thrown
    by simp
  ultimately show ?thesis
    using d r t by simp
qed

text \<open>
  C4. A request without a URL, or with the empty URL, reaches the statement that builds
  the response with status \<open>-300\<close>; the constructor refuses that status, the statement is
  outside the \<open>try\<close> block, and the handler throws. No request is answered with a
  response of status \<open>-300\<close>: every response that the handler returns has status 200.
\<close>

theorem missing_url_throws:
  "(url req = None \<or> url req = Some [] \<longrightarrow>
      fileHandler e isWindows allowedRoots req = (Inl (rangeError e), [])
      \<and> fst (fileHandler e isWindows allowedRoots req) \<noteq> Inr (denied (- 300)))
   \<and> (\<forall>r. fst (fileHandler e isWindows allowedRoots req) = Inr r \<longrightarrow> status r = 200)"
proof -
  have "status r = 200" if "fst (fileHandler e isWindows allowedRoots req) = Inr r" for r
    using fileHandler_returns_allowed [OF that] by (auto simp: allowed_def)
  then show ?thesis
    by (auto simp: fileHandler_missing)
qed

theorem missing_url_throws_witness:
  "fileHandler posixEnv False [''/data/app'', ''/opt/Signal''] \<lparr>url = None\<rparr>
     = (Inl statusRangeError, [])
   \<and> fileHandler posixEnv False [''/data/app'', ''/opt/Signal''] \<lparr>url = Some []\<rparr>
     = (Inl statusRangeError, [])
   \<and> fst (fileHandler posixEnv False [''/data/app'', ''/opt/Signal''] \<lparr>url = Some []\<rparr>)
     \<noteq> Inr (denied (- 300))"
proof -
  have thrown: "rangeError posixEnv = statusRangeError"
    by (simp add: posixEnv_def)
  show ?thesis
    using missing_url_throws [of "\<lparr>url = None\<rparr>" posixEnv False "[''/data/app'', ''/opt/Signal'']"]
      missing_url_throws [of "\<lparr>url = Some []\<rparr>" posixEnv False "[''/data/app'', ''/opt/Signal'']"]
      thrown
    by simp
qed

text \<open>
  C5. The containment test compares strings and knows no path segments: without the
  Windows flag, a resolved path that continues the text of an allowed root in any way
  passes the loop, and the handler allows it when it is absolute, as it does
  \<open>/data/app-evil/secret\<close> for the root \<open>/data/app\<close>.
\<close>

theorem prefix_without_boundary:
  assumes "root \<in> set allowedRoots"
  shows "forRoots e False (root @ rest) (root @ rest) allowedRoots
           = Some (allowed (root @ rest))
       \<and> (url req = Some u \<and> u \<noteq> [] \<and> resolve e False u = Inr (root @ rest)
            \<and> isAbsolute e (root @ rest) \<longrightarrow>
            fst (fileHandler e False allowedRoots req) = Inr (allowed (root @ rest)))"
proof -
  have "underRoot e False (root @ rest) root"
    by (simp add: underRoot_def startsWith_def)
  with assms have "\<exists>r \<in> set allowedRoots. underRoot e False (root @ rest) r"
    by blast
  with forRoots_eq [of e False "root @ rest" allowedRoots] show ?thesis
    by (auto simp: fileHandler_present)
qed

theorem prefix_without_boundary_witness:
  "fst (createFileHandler posixEnv ''/data/app'' ''/opt/Signal'' False
          \<lparr>url = Some ''file:///data/app-evil/secret''\<rparr>)
     = Inr (allowed ''/data/app-evil/secret'')"
proof -
  let ?roots = "[''/data/app'', ''/opt/Signal'', getAvatarsPath posixEnv ''/data/app'',
    getBadgesPath posixEnv ''/data/app'', getDraftPath posixEnv ''/data/app'',
    getPath posixEnv ''/data/app'', getStickersPath posixEnv ''/data/app'',
    getTempPath posixEnv ''/data/app'', getUpdateCachePath posixEnv ''/data/app'']"
  have r: "resolve posixEnv False ''file:///data/app-evil/secret''
      = Inr (''/data/app'' @ ''-evil/secret'')"
    and a: "isAbsolute posixEnv (''/data/app'' @ ''-evil/secret'')"
    by code_simp+
  have "''/data/app'' \<in> set ?roots"
    by simp
  from prefix_without_boundary [OF this, of posixEnv "''-evil/secret''"
      "\<lparr>url = Some ''file:///data/app-evil/secret''\<rparr>" "''file:///data/app-evil/secret''"] r a
  have "fst (fileHandler posixEnv False ?roots \<lparr>url = Some ''file:///data/app-evil/secret''\<rparr>)
      = Inr (allowed (''/data/app'' @ ''-evil/secret''))"
    by simp
  then show ?thesis
    by (simp add: createFileHandler_def)
qed

text \<open>
  C6. \<open>_urlToPath\<close> is the decoder that the specification describes: decode the escapes,
  keep a string that begins with \<open>//\<close> and otherwise drop eight characters on Windows and
  seven elsewhere, cut at the first \<open>?\<close>, then cut at the first \<open>#\<close>.
\<close>

theorem urlToPath_spec:
  "urlToPath e targetUrl options = specUrlToPath e targetUrl (options = Some True)"
  by (simp add: urlToPath_def specUrlToPath_def specTruncate_def eliminate_char
      slice_to_end startsWith_def prefix_two Let_def split: sum.splits)

theorem urlToPath_spec_witness:
  "urlToPath posixEnv ''file:///root/img.png?x=1#y'' (Some False) = Inr ''/root/img.png''
   \<and> urlToPath posixEnv ''file:///root/img.png'' None = Inr ''/root/img.png''
   \<and> urlToPath winEnv ''file:///C:/a%20b.png#y?z'' (Some True) = Inr ''C:/a b.png''
   \<and> urlToPath posixEnv ''//share/home/a.png?x'' (Some False) = Inr ''//share/home/a.png''
   \<and> urlToPath posixEnv ''file:///a%'' (Some False) = Inl uriMalformed"
proof -
  have "specUrlToPath posixEnv ''file:///root/img.png?x=1#y'' False = Inr ''/root/img.png''"
    and "specUrlToPath posixEnv ''file:///root/img.png'' False = Inr ''/root/img.png''"
    and "specUrlToPath winEnv ''file:///C:/a%20b.png#y?z'' True = Inr ''C:/a b.png''"
    and "specUrlToPath posixEnv ''//share/home/a.png?x'' False = Inr ''//share/home/a.png''"
    and "specUrlToPath posixEnv ''file:///a%'' False = Inl uriMalformed"
    by code_simp+
  then show ?thesis
    by (simp add: urlToPath_spec)
qed

text \<open>
  C7. With the Windows flag set the roots are matched without regard to letter case: a
  resolved path whose lower-cased form starts with the lower-cased form of an allowed
  root (as when the two differ in letter case only) passes the loop, and the response
  carries the resolved path as it was, not its lower-cased copy.
\<close>

theorem windows_case_insensitive:
  assumes "url req = Some u" and "u \<noteq> []"
    and "resolve e True u = Inr realPath"
    and "root \<in> set allowedRoots"
    and "startsWith (toLowerCase e realPath) (toLowerCase e root)"
  shows "forRoots e True (toLowerCase e realPath) realPath allowedRoots = Some (allowed realPath)
       \<and> (isAbsolute e realPath \<longrightarrow>
            fst (fileHandler e True allowedRoots req) = Inr (allowed realPath))"
proof -
  from assms have under: "underRoot e True realPath root"
    by (simp add: underRoot_def)
  with assms have "\<exists>r \<in> set allowedRoots. underRoot e True realPath r"
    by blast
  with forRoots_eq [of e True realPath allowedRoots] assms under show ?thesis
    by (auto simp: fileHandler_present)
qed

theorem windows_case_insensitive_witness:
  "toBackslashes ''C:/USERS/Bob/SIGNAL'' \<noteq> toBackslashes ''C:/Users/bob/Signal''
   \<and> toLowerCase winEnv (toBackslashes ''C:/USERS/Bob/SIGNAL'')
       = toLowerCase winEnv (toBackslashes ''C:/Users/bob/Signal'')
   \<and> toLowerCase winEnv (toBackslashes ''C:/USERS/Bob/SIGNAL'')
       \<noteq> toBackslashes ''C:/USERS/Bob/SIGNAL''
   \<and> fst (fileHandler winEnv True [toBackslashes ''C:/Users/bob/Signal'']
          \<lparr>url = Some ''file:///C:/USERS/Bob/SIGNAL''\<rparr>)
       = Inr (allowed (toBackslashes ''C:/USERS/Bob/SIGNAL''))
   \<and> fst (fileHandler winEnv True [toBackslashes ''C:/Users/bob/Signal'']
          \<lparr>url = Some ''file:///C:/Users/BOB/signal/x.png''\<rparr>)
       = Inr (allowed (toBackslashes ''C:/Users/BOB/signal/x.png''))"
proof -
  let ?root = "toBackslashes ''C:/Users/bob/Signal''"
  let ?p = "toBackslashes ''C:/USERS/Bob/SIGNAL''"
  let ?q = "toBackslashes ''C:/Users/BOB/signal/x.png''"
  have differ: "?p \<noteq> ?root" "toLowerCase winEnv ?p = toLowerCase winEnv ?root"
    "toLowerCase winEnv ?p \<noteq> ?p"
    by code_simp+
  have rp: "resolve winEnv True ''file:///C:/USERS/Bob/SIGNAL'' = Inr ?p"
    and sp: "startsWith (toLowerCase winEnv ?p) (toLowerCase winEnv ?root)"
    and ap: "isAbsolute winEnv ?p"
    by code_simp+
  have rq: "resolve winEnv True ''file:///C:/Users/BOB/signal/x.png'' = Inr ?q"
    and sq: "startsWith (toLowerCase winEnv ?q) (toLowerCase winEnv ?root)"
    and aq: "isAbsolute winEnv ?q"
    by code_simp+
  have "fst (fileHandler winEnv True [?root] \<lparr>url = Some ''file:///C:/USERS/Bob/SIGNAL''\<rparr>)
      = Inr (allowed ?p)"
    using windows_case_insensitive
      [where req = "\<lparr>url = Some ''file:///C:/USERS/Bob/SIGNAL''\<rparr>"
        and allowedRoots = "[?root]", OF _ _ rp _ sp] ap
    by simp
  moreover
  have "fst (fileHandler winEnv True [?root]
          \<lparr>url = Some ''file:///C:/Users/BOB/signal/x.png''\<rparr>) = Inr (allowed ?q)"
    using windows_case_insensitive
      [where req = "\<lparr>url = Some ''file:///C:/Users/BOB/signal/x.png''\<rparr>"
        and allowedRoots = "[?root]", OF _ _ rq _ sq] aq
    by simp
  ultimately show ?thesis
    using differ by simp
qed

text \<open>
  C8. A request whose resolved path is not absolute is never allowed, under any list of
  allowed roots, also one with a root that the path starts with: whatever the request
  and the roots, a path that is allowed is absolute. The request is not answered with
  \<open>Denied\<close> and code \<open>-10\<close> either: the response cannot be built, in the \<open>try\<close> block or
  in the \<open>catch\<close> clause, and the handler throws.
\<close>

theorem non_absolute_throws:
  assumes "url req = Some u" and "u \<noteq> []"
    and "resolve e isWindows u = Inr realPath"
    and "\<not> isAbsolute e realPath"
  shows "(\<forall>allowedRoots. fst (fileHandler e isWindows allowedRoots req) = Inl (rangeError e)
            \<and> fst (fileHandler e isWindows allowedRoots req) \<noteq> Inr (denied (- 10)))
       \<and> (\<forall>allowedRoots req' path.
            fst (fileHandler e isWindows allowedRoots req') = Inr (allowed path) \<longrightarrow>
            isAbsolute e path)"
proof -
  have "isAbsolute e path"
    if "fst (fileHandler e isWindows allowedRoots req') = Inr (allowed path)"
    for allowedRoots req' path
    using fileHandler_returns_allowed [OF that] by (auto simp: allowed_def)
  with assms show ?thesis
    by (simp add: fileHandler_present)
qed

theorem non_absolute_throws_witness:
  "resolve posixEnv False ''file://data/app/a.png'' = Inr ''data/app/a.png''
   \<and> \<not> isAbsolute posixEnv ''data/app/a.png''
   \<and> underRoot posixEnv False ''data/app/a.png'' ''data/app''
   \<and> fst (fileHandler posixEnv False [''data/app'', []]
          \<lparr>url = Some ''file://data/app/a.png''\<rparr>) = Inl statusRangeError
   \<and> fst (fileHandler posixEnv False [''data/app'', []]
          \<lparr>url = Some ''file://data/app/a.png''\<rparr>) \<noteq> Inr (denied (- 10))"
proof -
  have r: "resolve posixEnv False ''file://data/app/a.png'' = Inr ''data/app/a.png''"
    and a: "\<not> isAbsolute posixEnv ''data/app/a.png''"
    and m: "underRoot posixEnv False ''data/app/a.png'' ''data/app''"
    by code_simp+
  have thrown: "rangeError posixEnv = statusRangeError"
    by (simp add: posixEnv_def)
  have "fst (fileHandler posixEnv False [''data/app'', []]
          \<lparr>url = Some ''file://data/app/a.png''\<rparr>) = Inl statusRangeError
      \<and> fst (fileHandler posixEnv False [''data/app'', []]
          \<lparr>url = Some ''file://data/app/a.png''\<rparr>) \<noteq> Inr (denied (- 10))"
    using non_absolute_throws
      [where req = "\<lparr>url = Some ''file://data/app/a.png''\<rparr>", OF _ _ r a] thrown
    by simp
  with r a m show ?thesis
    by simp
qed

text \<open>
  C9. The response does not depend on the order of the allowed roots: two lists that are
  permutations of each other give the same response to every request, the same path
  included. (Only the console line of a denial, which prints the list, can differ.)
\<close>

theorem roots_order_irrelevant:
  assumes "mset allowedRoots' = mset allowedRoots"
  shows "fst (fileHandler e isWindows allowedRoots' req)
       = fst (fileHandler e isWindows allowedRoots req)"
proof -
  from assms have same: "set allowedRoots' = set allowedRoots"
    by (rule mset_eq_setD)
  show ?thesis
  proof (cases "url req = None \<or> url req = Some []")
    case True
    then show ?thesis
      by (simp add: fileHandler_missing)
  next
    case False
    then obtain u where "url req = Some u" "u \<noteq> []"
      by (cases "url req") auto
    then show ?thesis
      by (simp add: fileHandler_present same split: sum.splits)
  qed
qed

theorem roots_order_irrelevant_witness:
  "mset [''/opt/Signal'', ''/data'', ''/data/app''] = mset [''/data/app'', ''/opt/Signal'', ''/data'']
   \<and> fst (fileHandler posixEnv False [''/opt/Signal'', ''/data'', ''/data/app'']
          \<lparr>url = Some ''file:///data/app/attachments/a.png''\<rparr>)
     = fst (fileHandler posixEnv False [''/data/app'', ''/opt/Signal'', ''/data'']
          \<lparr>url = Some ''file:///data/app/attachments/a.png''\<rparr>)
   \<and> fst (fileHandler posixEnv False [''/data/app'', ''/opt/Signal'', ''/data'']
          \<lparr>url = Some ''file:///data/app/attachments/a.png''\<rparr>)
     = Inr (allowed ''/data/app/attachments/a.png'')"
proof -
  have p: "mset [''/opt/Signal'', ''/data'', ''/data/app'']
      = mset [''/data/app'', ''/opt/Signal'', ''/data'']"
    by simp
  have "fst (fileHandler posixEnv False [''/data/app'', ''/opt/Signal'', ''/data'']
          \<lparr>url = Some ''file:///data/app/attachments/a.png''\<rparr>)
      = Inr (allowed ''/data/app/attachments/a.png'')"
    by code_simp
  with p roots_order_irrelevant [OF p, of posixEnv False
      "\<lparr>url = Some ''file:///data/app/attachments/a.png''\<rparr>"]
  show ?thesis
    by simp
qed

text \<open>
  C10. For a one-character search string, \<open>_eliminateAllAfterCharacter\<close> returns a prefix
  of its input in which the character does not occur, and applying it a second time with
  the same character changes nothing.
\<close>

theorem eliminateAllAfterCharacter_prefix_free_idem:
  assumes "length character = 1"
  shows "prefix (eliminateAllAfterCharacter s character) s
       \<and> hd character \<notin> set (eliminateAllAfterCharacter s character)
       \<and> indexOf (eliminateAllAfterCharacter s character) character < 0
       \<and> eliminateAllAfterCharacter (eliminateAllAfterCharacter s character) character
           = eliminateAllAfterCharacter s character"
proof -
  from assms obtain c where c: "character = [c]"
    by (cases character) auto
  let ?r = "takeWhile (\<lambda>x. x \<noteq> c) s"
  have free: "c \<notin> set ?r"
    by (auto dest: set_takeWhileD)
  have "prefix ?r s"
    by (metis prefixI takeWhile_dropWhile_id)
  moreover have "takeWhile (\<lambda>x. x \<noteq> c) ?r = ?r"
    by simp
  ultimately show ?thesis
    using free by (simp add: c eliminate_char indexOf_char)
qed

theorem eliminateAllAfterCharacter_prefix_free_idem_witness:
  "length ''?'' = 1
   \<and> eliminateAllAfterCharacter ''/a/b.png?x=1?y'' ''?'' = ''/a/b.png''
   \<and> prefix (eliminateAllAfterCharacter ''/a/b.png?x=1?y'' ''?'') ''/a/b.png?x=1?y''
   \<and> hd ''?'' \<notin> set (eliminateAllAfterCharacter ''/a/b.png?x=1?y'' ''?'')
   \<and> eliminateAllAfterCharacter (eliminateAllAfterCharacter ''/a/b.png?x=1?y'' ''?'') ''?''
       = eliminateAllAfterCharacter ''/a/b.png?x=1?y'' ''?''"
  using eliminateAllAfterCharacter_prefix_free_idem [of "''?''" "''/a/b.png?x=1?y''"]
  by (simp add: eliminateAllAfterCharacter_def slice_def)

end
